theory Spec2Isabelle
  imports Complex_Main
begin

section \<open>Numeric primitives\<close>

text \<open>
  The program computes with IEEE double precision numbers (Python \<open>float\<close>,
  \<open>numpy.float64\<close>). Throughout this development they are idealised as the real
  numbers, and \<open>np.cos\<close>, \<open>np.sin\<close> are the real cosine and sine: rounding, infinities
  and NaN are outside the model. Integers are Python's unbounded integers.
\<close>

definition radians :: "real \<Rightarrow> real" where
  \<comment> \<open>\<open>np.radians\<close>: degrees to radians.\<close>
  "radians d = d * pi / 180"

definition py_mod :: "real \<Rightarrow> real \<Rightarrow> real" where
  \<comment> \<open>\<open>%\<close> on floats: the remainder of floored division (sign of the divisor).\<close>
  "py_mod x m = x - m * of_int \<lfloor>x / m\<rfloor>"

datatype error = ZeroDivisionError | EOFError

definition py_truediv :: "real \<Rightarrow> real \<Rightarrow> error + real" where
  \<comment> \<open>\<open>/\<close> on two Python floats raises on a zero divisor.\<close>
  "py_truediv a b = (if b = 0 then Inl ZeroDivisionError else Inr (a / b))"

section \<open>Global parameters of the robot\<close>

definition WHEEL_RADIUS :: real where
  "WHEEL_RADIUS = 148 / 1000"

definition WHEEL_WIDTH :: real where
  "WHEEL_WIDTH = 44 / 1000"

definition ROBOT_RADIUS :: real where
  "ROBOT_RADIUS = 195 / 1000"

definition WHEEL_ANGLES :: "real list" where
  "WHEEL_ANGLES = [radians 60, radians 180, radians 300]"

definition F_WHEEL_ANGLES :: "real list" where
  "F_WHEEL_ANGLES = [radians 45, radians 135, radians 225, radians 315]"

text \<open>The module globals that are assigned at run time.\<close>

record globals =
  OMEGA :: real
  PLOT_BOTH :: bool
  paused :: bool

definition init_globals :: globals where
  "init_globals = \<lparr>OMEGA = 0, PLOT_BOTH = False, paused = False\<rparr>"

section \<open>The Jacobian matrix\<close>

type_synonym matrix = "real list list"

definition zeros :: "nat \<Rightarrow> nat \<Rightarrow> matrix" where
  \<comment> \<open>\<open>np.zeros((n, m))\<close>\<close>
  "zeros n m = replicate n (replicate m 0)"

definition set_entry :: "matrix \<Rightarrow> nat \<Rightarrow> nat \<Rightarrow> real \<Rightarrow> matrix" where
  \<comment> \<open>\<open>j[i, k] = v\<close>, for an index inside the matrix\<close>
  "set_entry j i k v = j[i := (j ! i)[k := v]]"

text \<open>
  The loop of \<open>construct_jacobian\<close> over \<open>enumerate(angles)\<close>, with the wheel radius
  \<open>r\<close> and the platform radius \<open>R\<close> (the globals \<open>WHEEL_RADIUS\<close> and \<open>ROBOT_RADIUS\<close>)
  as parameters. The first two entries divide a numpy scalar, which does not raise; the
  third divides two Python floats, which raises \<open>ZeroDivisionError\<close> when \<open>r\<close> is zero,
  so that the values written before it in that iteration are never returned.
\<close>

fun jacobian_loop :: "real \<Rightarrow> real \<Rightarrow> (nat \<times> real) list \<Rightarrow> matrix \<Rightarrow> error + matrix" where
  "jacobian_loop r R [] j = Inr j"
| "jacobian_loop r R ((i, angle) # rest) j =
     (let j1 = set_entry j i 0 (cos angle / r);
          j2 = set_entry j1 i 1 (sin angle / r)
      in case py_truediv R r of
           Inl e \<Rightarrow> Inl e
         | Inr q \<Rightarrow> jacobian_loop r R rest (set_entry j2 i 2 q))"

definition construct_jacobian_cfg :: "real list \<Rightarrow> real \<Rightarrow> real \<Rightarrow> error + matrix" where
  "construct_jacobian_cfg angles r R =
     jacobian_loop r R (enumerate 0 angles) (zeros (length angles) 3)"

definition construct_jacobian :: "bool \<Rightarrow> error + matrix" where
  "construct_jacobian use_four_wheels =
     construct_jacobian_cfg (if use_four_wheels then F_WHEEL_ANGLES else WHEEL_ANGLES)
       WHEEL_RADIUS ROBOT_RADIUS"

section \<open>Body frame and wheel velocities\<close>

definition convert_to_body_frame :: "real \<Rightarrow> real \<Rightarrow> real \<Rightarrow> real \<times> real" where
  "convert_to_body_frame speed angle orientation =
     (let angle_rad = radians angle;
          orientation_rad = radians orientation;
          v_bx_0 = speed * cos (angle_rad - orientation_rad);
          v_by_0 = speed * sin (angle_rad - orientation_rad);
          v_bx = - v_by_0;
          v_by = v_bx_0
      in (v_bx, v_by))"

definition dot :: "matrix \<Rightarrow> real list \<Rightarrow> real list" where
  \<comment> \<open>\<open>np.dot\<close> of a matrix and a vector: one sum of products per row\<close>
  "dot j v = map (\<lambda>row. sum_list (map2 (*) row v)) j"

definition compute_wheel_velocities_jacobian ::
    "real \<Rightarrow> real \<Rightarrow> real \<Rightarrow> real \<Rightarrow> bool \<Rightarrow> error + real list" where
  "compute_wheel_velocities_jacobian speed angle orientation omega use_four_wheels =
     (let (v_bx, v_by) = convert_to_body_frame speed angle orientation;
          v = [v_bx, v_by, omega]
      in case construct_jacobian use_four_wheels of
           Inl e \<Rightarrow> Inl e
         | Inr j \<Rightarrow> Inr (dot j v))"

section \<open>The animation step\<close>

text \<open>
  Drawing is outside the kinematics. An axis is modelled by what it shows: nothing after
  \<open>ax.clear()\<close>, or the arguments of the last \<open>plot_robot\<close> call, which clears the axis
  and draws the robot from them.
\<close>

record plot_call =
  pc_wheel_velocities :: "real list"
  pc_orientation :: real
  pc_speed :: real
  pc_angle :: int
  pc_use_four_wheels :: bool

type_synonym axis = "plot_call option"

definition ax_clear :: "axis \<Rightarrow> axis" where
  "ax_clear ax = None"

definition plot_robot :: "axis \<Rightarrow> plot_call \<Rightarrow> axis" where
  "plot_robot ax c = (let ax1 = ax_clear ax in Some c)"

text \<open>
  \<open>update\<close> reads the global \<open>paused\<close> flag and assigns no global. It returns the axis
  after the call together with the call it made to \<open>plot_robot\<close>, if any.
\<close>

definition update :: "int \<Rightarrow> axis \<Rightarrow> real \<Rightarrow> bool \<Rightarrow> globals \<Rightarrow> error + (axis \<times> plot_call option)" where
  "update frame ax omega use_four_wheels g =
     (if \<not> paused g then
        (let ax1 = ax_clear ax;
             speed = 0.5 * (1 + sin (radians (of_int frame)));
             angle = frame mod 360;
             orientation_change_rate = omega * of_int frame;
             orientation = py_mod orientation_change_rate 360
         in case compute_wheel_velocities_jacobian speed (of_int angle) orientation omega
                   use_four_wheels of
              Inl e \<Rightarrow> Inl e
            | Inr wheel_velocities \<Rightarrow>
                (let c = \<lparr>pc_wheel_velocities = wheel_velocities, pc_orientation = orientation,
                          pc_speed = speed, pc_angle = angle,
                          pc_use_four_wheels = use_four_wheels\<rparr>
                 in Inr (plot_robot ax1 c, Some c)))
      else Inr (ax, None))"

text \<open>Consecutive calls of \<open>update\<close> on one axis, collecting the calls to \<open>plot_robot\<close>.\<close>

fun updates :: "int list \<Rightarrow> axis \<Rightarrow> real \<Rightarrow> bool \<Rightarrow> globals \<Rightarrow> error + (axis \<times> plot_call list)" where
  "updates [] ax omega use_four_wheels g = Inr (ax, [])"
| "updates (frame # rest) ax omega use_four_wheels g =
     (case update frame ax omega use_four_wheels g of
        Inl e \<Rightarrow> Inl e
      | Inr (ax1, out) \<Rightarrow>
          (case updates rest ax1 omega use_four_wheels g of
             Inl e \<Rightarrow> Inl e
           | Inr (ax2, outs) \<Rightarrow> Inr (ax2, (case out of None \<Rightarrow> [] | Some c \<Rightarrow> [c]) @ outs)))"

section \<open>Pausing\<close>

record key_event =
  key :: "string option"

definition toggle_pause :: "key_event \<Rightarrow> globals \<Rightarrow> globals" where
  "toggle_pause event g = (if key event = Some '' '' then g\<lparr>paused := \<not> paused g\<rparr> else g)"

section \<open>User input\<close>

text \<open>
  Standard input is the list of the lines still to be read; \<open>input\<close> takes the first one
  and raises \<open>EOFError\<close> when there is none. The builtin \<open>float\<close> on a string is a
  parameter \<open>float_of\<close> of the model: \<open>None\<close> where it raises \<open>ValueError\<close>.
\<close>

fun input :: "string list \<Rightarrow> error + (string \<times> string list)" where
  "input [] = Inl EOFError"
| "input (l # ls) = Inr (l, ls)"

definition lower_char :: "char \<Rightarrow> char" where
  \<comment> \<open>\<open>str.lower\<close> on one character: only \<open>A\<close> to \<open>Z\<close> change among the ASCII characters,
      and no other character is lowered to \<open>y\<close>, the one string the results are compared with.\<close>
  "lower_char c =
     (if 65 \<le> (of_char c :: nat) \<and> (of_char c :: nat) \<le> 90 then char_of (of_char c + (32::nat))
      else c)"

definition lower :: "string \<Rightarrow> string" where
  "lower s = map lower_char s"

definition get_user_inputs ::
    "(string \<Rightarrow> real option) \<Rightarrow> string list \<Rightarrow> globals \<Rightarrow> error + (bool \<times> globals \<times> string list)" where
  "get_user_inputs float_of stdin g =
     (case input stdin of
        Inl e \<Rightarrow> Inl e
      | Inr (a1, in1) \<Rightarrow>
          (let g1 = g\<lparr>PLOT_BOTH := (lower a1 = ''y'')\<rparr>
           in case input in1 of
                Inl e \<Rightarrow> Inl e
              | Inr (a2, in2) \<Rightarrow>
                  (let (input_omega, g2) =
                         (if a2 = [] then (OMEGA g1, g1)
                          else case float_of a2 of
                                 Some v \<Rightarrow> (v, g1)
                               | None \<Rightarrow> (OMEGA g1, g1\<lparr>PLOT_BOTH := False\<rparr>));
                       g3 = g2\<lparr>OMEGA := input_omega\<rparr>
                   in if PLOT_BOTH g3 then Inr (False, g3, in2)
                      else (case input in2 of
                              Inl e \<Rightarrow> Inl e
                            | Inr (a3, in3) \<Rightarrow> Inr (lower a3 = ''y'', g3, in3)))))"

section \<open>Running the animation\<close>

definition frames :: "int list" where
  \<comment> \<open>\<open>np.arange(0, 720, 1)\<close>\<close>
  "frames = map int [0..<720]"

text \<open>
  The animations are created by \<open>FuncAnimation(fig, update, frames=frames, repeat=True)\<close>,
  with no \<open>init_func\<close>. \<open>FuncAnimation\<close> belongs to matplotlib, not to the program; what
  follows is the part of it that decides which frames \<open>update\<close> is called with:
  \<^item> \<open>new_frame_seq\<close> is a fresh iterator over \<open>frames\<close>;
  \<^item> \<open>_init_draw\<close>, without an \<open>init_func\<close>, draws the first frame of a fresh iterator;
  \<^item> \<open>_step\<close>, on each timer event, draws the next frame of the animation's iterator; when
    the iterator is exhausted and \<open>repeat\<close> is set, it calls \<open>_init_draw\<close> and replaces the
    iterator by a fresh one;
  \<^item> \<open>_start\<close> calls \<open>_init_draw\<close> and then starts the timer.

  An iterator is the list of the frames it has still to yield, and each function returns
  the frames it has \<open>update\<close> called with.
\<close>

definition new_frame_seq :: "int list" where
  "new_frame_seq = frames"

definition init_draw :: "int list" where
  "init_draw = (case new_frame_seq of [] \<Rightarrow> [] | frame # rest \<Rightarrow> [frame])"

fun anim_step :: "int list \<Rightarrow> int list \<times> int list" where
  "anim_step (frame # frame_seq) = ([frame], frame_seq)"
| "anim_step [] = (init_draw, new_frame_seq)"

fun anim_steps :: "nat \<Rightarrow> int list \<Rightarrow> int list" where
  "anim_steps 0 frame_seq = []"
| "anim_steps (Suc n) frame_seq =
     (case anim_step frame_seq of (drawn, frame_seq') \<Rightarrow> drawn @ anim_steps n frame_seq')"

definition animation_calls :: "nat \<Rightarrow> int list" where
  \<comment> \<open>the frames of the calls of \<open>update\<close> made by \<open>_start\<close> and the first \<open>n\<close> timer events\<close>
  "animation_calls n = init_draw @ anim_steps n new_frame_seq"

text \<open>
  \<open>run_animation\<close> up to the creation of the animations: the globals after the user's
  input, and for each animation the \<open>omega\<close> and \<open>use_four_wheels\<close> passed to \<open>update\<close>.
\<close>

definition run_animation ::
    "(string \<Rightarrow> real option) \<Rightarrow> string list \<Rightarrow> error + (globals \<times> (real \<times> bool) list)" where
  "run_animation float_of stdin =
     (case get_user_inputs float_of stdin init_globals of
        Inl e \<Rightarrow> Inl e
      | Inr (use_four_wheels, g, rest) \<Rightarrow>
          if PLOT_BOTH g then Inr (g, [(OMEGA g, False), (OMEGA g, True)])
          else Inr (g, [(OMEGA g, use_four_wheels)]))"

section \<open>Properties of the Jacobian\<close>

lemma set_entry_row:
  assumes "i < length j" and "length (j ! i) = 3"
  shows "set_entry (set_entry (set_entry j i 0 a) i 1 b) i 2 c = j[i := [a, b, c]]"
proof -
  obtain x y z where "j ! i = [x, y, z]"
    using assms(2) by (auto simp: length_Suc_conv numeral_3_eq_3)
  then show ?thesis
    using assms(1) by (simp add: set_entry_def)
qed

text \<open>
  The loop invariant: started at row \<open>n\<close> on a matrix with rows of length three, the loop
  overwrites the rows \<open>n, n + 1, \<dots>\<close> in the order of the angles and leaves the others.
\<close>

lemma jacobian_loop_rows:
  assumes "r \<noteq> 0"
  shows "n + length xs \<le> length j \<Longrightarrow> \<forall>i<length j. length (j ! i) = 3 \<Longrightarrow>
     jacobian_loop r R (enumerate n xs) j =
       Inr (take n j @ map (\<lambda>a. [cos a / r, sin a / r, R / r]) xs @ drop (n + length xs) j)"
proof (induction xs arbitrary: n j)
  case Nil
  then show ?case by simp
next
  case (Cons a xs)
  let ?row = "[cos a / r, sin a / r, R / r]"
  let ?j = "j[n := ?row]"
  have n: "n < length j"
    using Cons.prems(1) by simp
  have len: "length (j ! n) = 3"
    using Cons.prems(2) n by blast
  have step: "jacobian_loop r R (enumerate n (a # xs)) j =
      jacobian_loop r R (enumerate (Suc n) xs) ?j"
    using assms set_entry_row[OF n len] by (simp add: py_truediv_def Let_def)
  have rows: "\<forall>i<length ?j. length (?j ! i) = 3"
  proof (intro allI impI)
    fix i assume "i < length ?j"
    then have "length (j ! i) = 3"
      using Cons.prems(2) by simp
    then show "length (?j ! i) = 3"
      by (cases "i = n") (simp_all add: n)
  qed
  have "jacobian_loop r R (enumerate (Suc n) xs) ?j =
      Inr (take (Suc n) ?j @ map (\<lambda>a. [cos a / r, sin a / r, R / r]) xs
             @ drop (Suc n + length xs) ?j)"
    using Cons.prems(1) rows by (intro Cons.IH) simp_all
  moreover have "take (Suc n) ?j = take n j @ [?row]"
    using n by (simp add: take_Suc_conv_app_nth)
  moreover have "drop (Suc n + length xs) ?j = drop (Suc n + length xs) j"
    by simp
  ultimately show ?case
    using step by simp
qed

lemma construct_jacobian_cfg_map:
  "r \<noteq> 0 \<Longrightarrow>
     construct_jacobian_cfg angles r R = Inr (map (\<lambda>a. [cos a / r, sin a / r, R / r]) angles)"
  using jacobian_loop_rows[of r 0 angles "zeros (length angles) 3" R]
  by (simp add: construct_jacobian_cfg_def zeros_def)

lemma jacobian_loop_zero_radius:
  "xs \<noteq> [] \<Longrightarrow> jacobian_loop 0 R (enumerate n xs) j = Inl ZeroDivisionError"
  by (cases xs) (simp_all add: py_truediv_def)

lemma WHEEL_RADIUS_nonzero: "WHEEL_RADIUS \<noteq> 0"
  by (simp add: WHEEL_RADIUS_def)

lemma construct_jacobian_map:
  "construct_jacobian u =
     Inr (map (\<lambda>a. [cos a / WHEEL_RADIUS, sin a / WHEEL_RADIUS, ROBOT_RADIUS / WHEEL_RADIUS])
            (if u then F_WHEEL_ANGLES else WHEEL_ANGLES))"
  unfolding construct_jacobian_def
  by (rule construct_jacobian_cfg_map[OF WHEEL_RADIUS_nonzero])

text \<open>
  C1. For every sequence of mounting angles, every wheel radius \<open>r\<close> other than zero and
  every platform radius \<open>R\<close>, \<open>construct_jacobian\<close> returns a matrix with one row per
  angle, in the order of the angles, and row \<open>i\<close> is
  \<open>[cos \<theta>\<^sub>i / r, sin \<theta>\<^sub>i / r, R / r]\<close>.
\<close>

theorem construct_jacobian_rows:
  assumes "r \<noteq> 0"
  shows "\<exists>J. construct_jacobian_cfg angles r R = Inr J \<and> length J = length angles \<and>
           (\<forall>i<length angles.
              J ! i = [cos (angles ! i) / r, sin (angles ! i) / r, R / r])"
  using construct_jacobian_cfg_map[OF assms, of angles R] by simp

theorem construct_jacobian_rows_witness:
  "WHEEL_RADIUS \<noteq> 0 \<and>
   construct_jacobian False =
     Inr [[cos (radians 60) / WHEEL_RADIUS, sin (radians 60) / WHEEL_RADIUS,
           ROBOT_RADIUS / WHEEL_RADIUS],
          [cos (radians 180) / WHEEL_RADIUS, sin (radians 180) / WHEEL_RADIUS,
           ROBOT_RADIUS / WHEEL_RADIUS],
          [cos (radians 300) / WHEEL_RADIUS, sin (radians 300) / WHEEL_RADIUS,
           ROBOT_RADIUS / WHEEL_RADIUS]]"
proof -
  have r: "WHEEL_RADIUS \<noteq> 0"
    by (simp add: WHEEL_RADIUS_def)
  let ?angles = "[radians 60, radians 180, radians 300]"
  from construct_jacobian_rows[OF r, of ?angles ROBOT_RADIUS] obtain J where
    J: "construct_jacobian_cfg ?angles WHEEL_RADIUS ROBOT_RADIUS = Inr J"
    and len: "length J = 3"
    and rows: "\<forall>i<3. J ! i = [cos (?angles ! i) / WHEEL_RADIUS, sin (?angles ! i) / WHEEL_RADIUS,
                              ROBOT_RADIUS / WHEEL_RADIUS]"
    by auto
  from len obtain x y z where xyz: "J = [x, y, z]"
    by (auto simp: length_Suc_conv numeral_3_eq_3)
  have "J ! 0 = [cos (?angles ! 0) / WHEEL_RADIUS, sin (?angles ! 0) / WHEEL_RADIUS,
                 ROBOT_RADIUS / WHEEL_RADIUS]"
    and "J ! 1 = [cos (?angles ! 1) / WHEEL_RADIUS, sin (?angles ! 1) / WHEEL_RADIUS,
                 ROBOT_RADIUS / WHEEL_RADIUS]"
    and "J ! 2 = [cos (?angles ! 2) / WHEEL_RADIUS, sin (?angles ! 2) / WHEEL_RADIUS,
                 ROBOT_RADIUS / WHEEL_RADIUS]"
    using rows by simp_all
  then have "J = [[cos (radians 60) / WHEEL_RADIUS, sin (radians 60) / WHEEL_RADIUS,
           ROBOT_RADIUS / WHEEL_RADIUS],
          [cos (radians 180) / WHEEL_RADIUS, sin (radians 180) / WHEEL_RADIUS,
           ROBOT_RADIUS / WHEEL_RADIUS],
          [cos (radians 300) / WHEEL_RADIUS, sin (radians 300) / WHEEL_RADIUS,
           ROBOT_RADIUS / WHEEL_RADIUS]]"
    unfolding xyz by simp
  then show ?thesis
    using r J by (simp add: construct_jacobian_def WHEEL_ANGLES_def)
qed

text \<open>
  C4, as claimed: a configuration with a wheel radius below zero, with a negative platform
  radius or with no angle is rejected, and no matrix is returned. The code validates
  nothing: each of these three configurations gets its matrix.
\<close>

theorem construct_jacobian_invalid_counterexample:
  "construct_jacobian_cfg [0] (- 1) 1 = Inr [[- 1, 0, - 1]] \<and>
   construct_jacobian_cfg [0] 1 (- 1) = Inr [[1, 0, - 1]] \<and>
   construct_jacobian_cfg [] 1 1 = Inr []"
  by (simp add: construct_jacobian_cfg_map)

text \<open>
  C4, amended. \<open>construct_jacobian\<close> has no check of its configuration and no error of
  its own: it returns the matrix of C1 for every angle sequence (the empty one too), every
  wheel radius other than zero (negative ones too) and every platform radius. It fails only
  for a wheel radius of zero with at least one angle, and then with the
  \<open>ZeroDivisionError\<close> of the division \<open>R / r\<close>. With the radii and angles of the
  module it always returns a matrix.
\<close>

theorem construct_jacobian_no_validation:
  "construct_jacobian_cfg angles r R =
     (if r = 0 \<and> angles \<noteq> [] then Inl ZeroDivisionError
      else Inr (map (\<lambda>a. [cos a / r, sin a / r, R / r]) angles)) \<and>
   (\<exists>J. construct_jacobian u = Inr J)"
proof -
  have cfg: "construct_jacobian_cfg angles r R =
     (if r = 0 \<and> angles \<noteq> [] then Inl ZeroDivisionError
      else Inr (map (\<lambda>a. [cos a / r, sin a / r, R / r]) angles))"
  proof (cases "r = 0")
    case False
    then show ?thesis
      by (simp add: construct_jacobian_cfg_map)
  next
    case True
    show ?thesis
    proof (cases "angles = []")
      case True
      then show ?thesis
        by (simp add: construct_jacobian_cfg_def zeros_def)
    next
      case False
      then show ?thesis
        using \<open>r = 0\<close> by (simp add: construct_jacobian_cfg_def jacobian_loop_zero_radius)
    qed
  qed
  have "\<exists>J. construct_jacobian u = Inr J"
    by (simp add: construct_jacobian_map)
  with cfg show ?thesis
    by (rule conjI)
qed

theorem construct_jacobian_no_validation_witness:
  "construct_jacobian_cfg [0, pi] 0 1 = Inl ZeroDivisionError \<and>
   construct_jacobian_cfg [0, pi] (- 2) 1 = Inr [[- (1 / 2), 0, - (1 / 2)], [1 / 2, 0, - (1 / 2)]]"
  using construct_jacobian_no_validation[of "[0, pi]" 0 1]
    construct_jacobian_no_validation[of "[0, pi]" "- 2" 1]
  by simp

section \<open>Properties of the body frame\<close>

text \<open>
  C2. For every speed \<open>s\<close>, direction \<open>d\<close> and orientation \<open>ori\<close> (degrees),
  \<open>convert_to_body_frame\<close> returns \<open>(- w, u)\<close> with \<open>u = s cos \<Delta>\<close>, \<open>w = s sin \<Delta>\<close>
  and \<open>\<Delta> = radians (d - ori)\<close>.
\<close>

theorem convert_to_body_frame_formula:
  "convert_to_body_frame s d ori =
     (let \<Delta> = radians (d - ori); u = s * cos \<Delta>; w = s * sin \<Delta> in (- w, u))"
  by (simp add: convert_to_body_frame_def Let_def radians_def diff_divide_distrib
      left_diff_distrib)

text \<open>
  C9. The body-frame velocity has the magnitude of the commanded speed:
  \<open>v_bx\<^sup>2 + v_by\<^sup>2 = s\<^sup>2\<close>.
\<close>

theorem convert_to_body_frame_magnitude:
  "(fst (convert_to_body_frame s d ori))\<^sup>2 + (snd (convert_to_body_frame s d ori))\<^sup>2 = s\<^sup>2"
proof -
  let ?a = "radians d - radians ori"
  have "s\<^sup>2 * (sin ?a)\<^sup>2 + s\<^sup>2 * (cos ?a)\<^sup>2 = s\<^sup>2 * ((sin ?a)\<^sup>2 + (cos ?a)\<^sup>2)"
    by (simp only: distrib_left)
  also have "\<dots> = s\<^sup>2"
    by simp
  finally show ?thesis
    by (simp add: convert_to_body_frame_def Let_def power_mult_distrib)
qed

section \<open>Properties of pausing\<close>

text \<open>
  C10. \<open>toggle_pause\<close> changes the state only for the space key: for every other key (or
  none) all globals stay as they are, and for the space key the \<open>paused\<close> flag is negated
  and nothing else changes.
\<close>

theorem toggle_pause_space_only:
  "(key event \<noteq> Some '' '' \<longrightarrow> toggle_pause event g = g) \<and>
   (key event = Some '' '' \<longrightarrow>
      toggle_pause event g = g\<lparr>paused := \<not> paused g\<rparr> \<and>
      paused (toggle_pause event g) = (\<not> paused g) \<and>
      OMEGA (toggle_pause event g) = OMEGA g \<and>
      PLOT_BOTH (toggle_pause event g) = PLOT_BOTH g)"
  by (simp add: toggle_pause_def)

theorem toggle_pause_space_only_witness:
  "key \<lparr>key = Some ''a''\<rparr> \<noteq> Some '' '' \<and>
   toggle_pause \<lparr>key = Some ''a''\<rparr> init_globals = init_globals \<and>
   key \<lparr>key = Some '' ''\<rparr> = Some '' '' \<and>
   paused (toggle_pause \<lparr>key = Some '' ''\<rparr> init_globals) \<and>
   OMEGA (toggle_pause \<lparr>key = Some '' ''\<rparr> init_globals) = 0"
  using toggle_pause_space_only[of "\<lparr>key = Some ''a''\<rparr>" init_globals]
    toggle_pause_space_only[of "\<lparr>key = Some '' ''\<rparr>" init_globals]
  by (simp add: init_globals_def)

section \<open>Properties of the animation step\<close>

lemma py_mod_range:
  assumes m: "0 < m"
  shows "0 \<le> py_mod x m \<and> py_mod x m < m"
proof -
  have lo: "of_int \<lfloor>x / m\<rfloor> * m \<le> x"
    by (rule floor_divide_lower[OF m])
  have hi: "x < (of_int \<lfloor>x / m\<rfloor> + 1) * m"
    by (rule floor_divide_upper[OF m])
  show ?thesis
    using lo hi by (simp add: py_mod_def algebra_simps)
qed

lemma speed_range: "0 \<le> 0.5 * (1 + sin (x::real)) \<and> 0.5 * (1 + sin x) \<le> 1"
proof -
  have "0 \<le> 1 + sin x"
    using sin_ge_minus_one[of x] by linarith
  then show ?thesis by simp
qed

lemma compute_wheel_velocities_jacobian_dot:
  "compute_wheel_velocities_jacobian s a ori w u =
     Inr (dot (map (\<lambda>a. [cos a / WHEEL_RADIUS, sin a / WHEEL_RADIUS, ROBOT_RADIUS / WHEEL_RADIUS])
                 (if u then F_WHEEL_ANGLES else WHEEL_ANGLES))
            [fst (convert_to_body_frame s a ori), snd (convert_to_body_frame s a ori), w])"
  by (simp add: compute_wheel_velocities_jacobian_def construct_jacobian_map split: prod.splits)

lemma update_running:
  assumes "\<not> paused g"
  shows "\<exists>wv. update n ax w u g =
           (let c = \<lparr>pc_wheel_velocities = wv, pc_orientation = py_mod (w * of_int n) 360,
                      pc_speed = 0.5 * (1 + sin (radians (of_int n))), pc_angle = n mod 360,
                      pc_use_four_wheels = u\<rparr>
            in Inr (Some c, Some c))"
  using assms
  by (simp add: update_def Let_def compute_wheel_velocities_jacobian_dot plot_robot_def)

lemma update_paused: "paused g \<Longrightarrow> update n ax w u g = Inr (ax, None)"
  by (simp add: update_def)

lemma updates_paused: "paused g \<Longrightarrow> updates fs ax w u g = Inr (ax, [])"
  by (induction fs) (simp_all add: update_paused)

text \<open>
  C3. When the animation is not paused, \<open>update\<close> on frame \<open>n\<close> with angular velocity \<open>\<omega>\<close>
  draws with speed \<open>0.5 (1 + sin (radians n))\<close>, direction \<open>n mod 360\<close> and orientation
  \<open>(\<omega> n) mod 360\<close>. The speed lies in \<open>[0, 1]\<close>; the direction and the orientation lie
  in \<open>[0, 360)\<close>, and the orientation differs from \<open>\<omega> n\<close> by a multiple of 360.
\<close>

theorem update_derives_motion:
  assumes "\<not> paused g"
  shows "\<exists>c. update n ax \<omega> u g = Inr (Some c, Some c) \<and>
           pc_speed c = 0.5 * (1 + sin (radians (of_int n))) \<and>
           pc_angle c = n mod 360 \<and>
           pc_orientation c = py_mod (\<omega> * of_int n) 360 \<and>
           0 \<le> pc_speed c \<and> pc_speed c \<le> 1 \<and>
           0 \<le> pc_angle c \<and> pc_angle c < 360 \<and>
           0 \<le> pc_orientation c \<and> pc_orientation c < 360 \<and>
           (\<exists>k::int. pc_orientation c = \<omega> * of_int n - 360 * of_int k)"
proof -
  from update_running[OF assms, of n ax \<omega> u] obtain wv where
    upd: "update n ax \<omega> u g =
      Inr (Some \<lparr>pc_wheel_velocities = wv, pc_orientation = py_mod (\<omega> * of_int n) 360,
                  pc_speed = 0.5 * (1 + sin (radians (of_int n))), pc_angle = n mod 360,
                  pc_use_four_wheels = u\<rparr>,
           Some \<lparr>pc_wheel_velocities = wv, pc_orientation = py_mod (\<omega> * of_int n) 360,
                  pc_speed = 0.5 * (1 + sin (radians (of_int n))), pc_angle = n mod 360,
                  pc_use_four_wheels = u\<rparr>)"
    by (auto simp: Let_def)
  have ori: "0 \<le> py_mod (\<omega> * of_int n) 360 \<and> py_mod (\<omega> * of_int n) 360 < 360"
    by (rule py_mod_range) simp
  have mult: "\<exists>k::int. py_mod (\<omega> * of_int n) 360 = \<omega> * of_int n - 360 * of_int k"
    unfolding py_mod_def by blast
  show ?thesis
    using upd ori mult speed_range[of "radians (of_int n)"] by simp
qed

theorem update_derives_motion_witness:
  "\<not> paused init_globals \<and>
   (\<exists>c. update 180 None 3 True init_globals = Inr (Some c, Some c) \<and>
      pc_speed c = 0.5 \<and> pc_angle c = 180 \<and> pc_orientation c = 180)"
proof -
  have run: "\<not> paused init_globals"
    by (simp add: init_globals_def)
  have s: "sin (radians 180) = 0"
    by (simp add: radians_def)
  have m: "py_mod 540 360 = 180"
    by (simp add: py_mod_def)
  show ?thesis
    using run update_derives_motion[OF run, of 180 None 3 True] by (auto simp: s m)
qed

text \<open>
  C5. While the animation is paused, a call of \<open>update\<close> draws nothing and leaves the axis
  as it was, whatever the frame; so does every sequence of such calls: no call to
  \<open>plot_robot\<close> is made and the axis still shows what it showed before.
\<close>

theorem update_paused_no_effect:
  assumes "paused g"
  shows "update n ax \<omega> u g = Inr (ax, None) \<and> updates fs ax \<omega> u g = Inr (ax, [])"
  using assms by (simp add: update_paused updates_paused)

theorem update_paused_no_effect_witness:
  "paused (toggle_pause \<lparr>key = Some '' ''\<rparr> init_globals) \<and>
   update 7 None 2 False (toggle_pause \<lparr>key = Some '' ''\<rparr> init_globals) = Inr (None, None) \<and>
   updates [7, 8, 9] None 2 False (toggle_pause \<lparr>key = Some '' ''\<rparr> init_globals) = Inr (None, [])"
proof -
  have p: "paused (toggle_pause \<lparr>key = Some '' ''\<rparr> init_globals)"
    by (simp add: toggle_pause_def init_globals_def)
  show ?thesis
    using p update_paused_no_effect[OF p, of 7 None 2 False "[7, 8, 9]"] by blast
qed

section \<open>The scenario at frame 90\<close>

lemma radians_0: "radians 0 = 0"
  by (simp add: radians_def)

lemma radians_90: "radians 90 = pi / 2"
  by (simp add: radians_def)

lemma cos_radians_60: "cos (radians 60) = 1 / 2"
  by (simp add: radians_def cos_60)

lemma cos_radians_180: "cos (radians 180) = - 1"
  by (simp add: radians_def)

lemma cos_radians_300: "cos (radians 300) = 1 / 2"
proof -
  have r: "radians 300 = 2 * pi - pi / 3"
    by (simp add: radians_def)
  have "cos (2 * pi - pi / 3) = cos (2 * pi) * cos (pi / 3) + sin (2 * pi) * sin (pi / 3)"
    by (rule cos_diff)
  then show ?thesis
    by (simp add: r cos_60)
qed

lemma body_frame_90: "convert_to_body_frame 1 90 0 = (- 1, 0)"
  by (simp add: convert_to_body_frame_def Let_def radians_0 radians_90)

lemma wheel_velocities_90:
  "compute_wheel_velocities_jacobian 1 90 0 0 False =
     Inr [cos (radians 60) / 0.148 * (- 1), cos (radians 180) / 0.148 * (- 1),
          cos (radians 300) / 0.148 * (- 1)]"
  by (simp add: compute_wheel_velocities_jacobian_dot body_frame_90 dot_def WHEEL_ANGLES_def
      WHEEL_RADIUS_def)

text \<open>
  C6. With the three wheels at 60, 180 and 300 degrees, wheel radius 0.148 and platform
  radius 0.195, the step at frame 90 with \<open>\<omega> = 0\<close> has speed 1, direction 90 and
  orientation 0; the body-frame velocity is \<open>(- 1, 0)\<close>; and the wheel velocities are
  \<open>cos \<theta>\<^sub>i / 0.148 \<cdot> (- 1)\<close>, within 0.001 of \<open>- 3.378\<close>, \<open>6.757\<close> and \<open>- 3.378\<close>.
\<close>

theorem scenario_frame_90:
  "WHEEL_RADIUS = 0.148 \<and> ROBOT_RADIUS = 0.195 \<and>
   WHEEL_ANGLES = [radians 60, radians 180, radians 300] \<and>
   update 90 ax 0 False init_globals =
     (let c = \<lparr>pc_wheel_velocities =
                  [cos (radians 60) / 0.148 * (- 1), cos (radians 180) / 0.148 * (- 1),
                   cos (radians 300) / 0.148 * (- 1)],
                pc_orientation = 0, pc_speed = 1, pc_angle = 90, pc_use_four_wheels = False\<rparr>
      in Inr (Some c, Some c)) \<and>
   convert_to_body_frame 1 90 0 = (- 1, 0) \<and>
   compute_wheel_velocities_jacobian 1 90 0 0 False =
     Inr [cos (radians 60) / 0.148 * (- 1), cos (radians 180) / 0.148 * (- 1),
          cos (radians 300) / 0.148 * (- 1)] \<and>
   abs (cos (radians 60) / 0.148 * (- 1) - (- 3.378)) < 0.001 \<and>
   abs (cos (radians 180) / 0.148 * (- 1) - 6.757) < 0.001 \<and>
   abs (cos (radians 300) / 0.148 * (- 1) - (- 3.378)) < 0.001"
proof -
  have params: "WHEEL_RADIUS = 0.148 \<and> ROBOT_RADIUS = 0.195 \<and>
      WHEEL_ANGLES = [radians 60, radians 180, radians 300]"
    by (simp add: WHEEL_RADIUS_def ROBOT_RADIUS_def WHEEL_ANGLES_def)
  have speed: "0.5 * (1 + sin (radians (of_int 90))) = (1::real)"
    by (simp add: radians_90)
  have ori: "py_mod (0 * of_int 90) 360 = 0"
    by (simp add: py_mod_def)
  have upd: "update 90 ax 0 False init_globals =
     (let c = \<lparr>pc_wheel_velocities =
                  [cos (radians 60) / 0.148 * (- 1), cos (radians 180) / 0.148 * (- 1),
                   cos (radians 300) / 0.148 * (- 1)],
                pc_orientation = 0, pc_speed = 1, pc_angle = 90, pc_use_four_wheels = False\<rparr>
      in Inr (Some c, Some c))"
    unfolding update_def Let_def speed ori
    by (simp add: init_globals_def wheel_velocities_90 plot_robot_def)
  have approx: "abs (cos (radians 60) / 0.148 * (- 1) - (- 3.378)) < 0.001 \<and>
      abs (cos (radians 180) / 0.148 * (- 1) - 6.757) < 0.001 \<and>
      abs (cos (radians 300) / 0.148 * (- 1) - (- 3.378)) < 0.001"
    unfolding cos_radians_60 cos_radians_180 cos_radians_300 by simp
  show ?thesis
    using params upd body_frame_90 wheel_velocities_90 approx by blast
qed

section \<open>Properties of the frame sequence\<close>

lemma frames_Cons: "\<exists>rest. frames = 0 # rest"
proof -
  have "[0..<720] = 0 # [Suc 0..<720]"
    by (rule upt_conv_Cons) simp
  then have "frames = 0 # map int [Suc 0..<720]"
    unfolding frames_def by (simp only: list.map of_nat_0)
  then show ?thesis
    by blast
qed

lemma init_draw_frames: "init_draw = [0]"
proof -
  obtain rest where rest: "frames = 0 # rest"
    using frames_Cons by blast
  show ?thesis
    unfolding init_draw_def new_frame_seq_def rest by simp
qed

lemma frames_nth: "i < 720 \<Longrightarrow> frames ! i = int i"
  by (simp add: frames_def)

text \<open>
  From an iterator that has still to yield the frames \<open>i, \<dots>, 719\<close>, every timer event
  draws one frame: first the rest of the pass, then frame 0 twice (the redraw and the first
  frame of the next pass), and so on.
\<close>

lemma anim_steps_nth:
  "i \<le> 720 \<Longrightarrow> k < n \<Longrightarrow>
     length (anim_steps n (map int [i..<720])) = n \<and>
     anim_steps n (map int [i..<720]) ! k =
       (if (k + i + 1) mod 721 = 0 then 0 else int ((k + i + 1) mod 721) - 1)"
proof (induction n arbitrary: i k)
  case 0
  then show ?case by simp
next
  case (Suc n)
  show ?case
  proof (cases "i < 720")
    case True
    then have seq: "map int [i..<720] = int i # map int [Suc i..<720]"
      by (simp add: upt_conv_Cons)
    have unfold: "anim_steps (Suc n) (map int [i..<720]) =
        int i # anim_steps n (map int [Suc i..<720])"
      by (simp add: seq)
    have len: "length (anim_steps n (map int [Suc i..<720])) = n"
    proof (cases n)
      case 0
      then show ?thesis by simp
    next
      case (Suc m)
      then show ?thesis
        using Suc.IH[of "Suc i" 0] True by simp
    qed
    show ?thesis
    proof (cases k)
      case 0
      have "(i + 1) mod 721 = i + 1"
        using True by simp
      then show ?thesis
        using 0 unfold len by simp
    next
      case (Suc k')
      then have "k' < n"
        using Suc.prems(2) by simp
      then have "anim_steps n (map int [Suc i..<720]) ! k' =
          (if (k' + Suc i + 1) mod 721 = 0 then 0 else int ((k' + Suc i + 1) mod 721) - 1)"
        using Suc.IH[of "Suc i" k'] True by simp
      then show ?thesis
        using Suc unfold len by simp
    qed
  next
    case False
    then have i: "i = 720"
      using Suc.prems(1) by simp
    have unfold: "anim_steps (Suc n) (map int [i..<720]) =
        0 # anim_steps n (map int [0..<720])"
      by (simp add: i init_draw_frames new_frame_seq_def frames_def)
    have len: "length (anim_steps n (map int [0..<720])) = n"
    proof (cases n)
      case 0
      then show ?thesis by simp
    next
      case (Suc m)
      then show ?thesis
        using Suc.IH[of 0 0] by simp
    qed
    show ?thesis
    proof (cases k)
      case 0
      then show ?thesis
        using unfold len i by simp
    next
      case (Suc k')
      then have "k' < n"
        using Suc.prems(2) by simp
      then have "anim_steps n (map int [0..<720]) ! k' =
          (if (k' + 0 + 1) mod 721 = 0 then 0 else int ((k' + 0 + 1) mod 721) - 1)"
        using Suc.IH[of 0 k'] by simp
      moreover have "(Suc k' + 720 + 1) mod 721 = (k' + 1) mod 721"
      proof -
        have "Suc k' + 720 + 1 = (k' + 1) + 721"
          by simp
        then show ?thesis
          by (simp only: mod_add_self2)
      qed
      ultimately show ?thesis
        using Suc unfold len i by simp
    qed
  qed
qed

lemma animation_calls_nth:
  assumes "k \<le> n"
  shows "animation_calls n ! k = (if k mod 721 = 0 then 0 else int (k mod 721) - 1)"
proof (cases k)
  case 0
  then show ?thesis
    by (simp add: animation_calls_def init_draw_frames)
next
  case (Suc k')
  then have "k' < n"
    using assms by simp
  then have "anim_steps n (map int [0..<720]) ! k' =
      (if (k' + 0 + 1) mod 721 = 0 then 0 else int ((k' + 0 + 1) mod 721) - 1)"
    using anim_steps_nth[of 0 k' n] by simp
  then show ?thesis
    using Suc by (simp add: animation_calls_def init_draw_frames new_frame_seq_def frames_def)
qed

lemma animation_calls_length: "length (animation_calls n) = Suc n"
proof (cases n)
  case 0
  then show ?thesis
    by (simp add: animation_calls_def init_draw_frames)
next
  case (Suc m)
  then show ?thesis
    using anim_steps_nth[of 0 0 n]
    by (simp add: animation_calls_def init_draw_frames new_frame_seq_def frames_def)
qed

text \<open>
  C7, as claimed: the frame index grows by one at every tick, without bound, and never
  starts over. The animation is given the 720 frames \<open>0, \<dots>, 719\<close> and repeats them: the
  first two calls of \<open>update\<close> both have frame 0, and the call after frame 719 has frame 0
  again.
\<close>

theorem frame_index_counterexample:
  "animation_calls 721 ! 0 = 0 \<and> animation_calls 721 ! 1 = 0 \<and>
   animation_calls 721 ! 720 = 719 \<and> animation_calls 721 ! 721 = 0 \<and>
   animation_calls 721 ! 721 \<noteq> animation_calls 721 ! 720 + 1 \<and>
   \<not> animation_calls 721 ! 720 < animation_calls 721 ! 721"
  by (simp add: animation_calls_nth)

text \<open>
  C7, amended. The frames given to the animation are the 720 numbers \<open>0, \<dots>, 719\<close>: they
  start at 0 and grow by one from each to the next. The animation repeats them, and draws
  frame 0 once more each time it starts a pass: \<open>update\<close> is called with the frames
  \<open>0, 0, 1, \<dots>, 719, 0, 0, 1, \<dots>\<close>, where call \<open>k\<close> (counted from 0) has frame 0 if
  \<open>k mod 721 = 0\<close> and frame \<open>k mod 721 - 1\<close> otherwise. So the frame index stays in
  \<open>[0, 719]\<close>, has period 721, and grows by exactly one from a call to the next except at
  the start of a pass.
\<close>

theorem frame_index_periodic:
  assumes "k \<le> n"
  shows "length frames = 720 \<and> frames ! 0 = 0 \<and>
         (i < 719 \<longrightarrow> frames ! Suc i = frames ! i + 1) \<and>
         length (animation_calls n) = Suc n \<and>
         animation_calls n ! k = (if k mod 721 = 0 then 0 else int (k mod 721) - 1) \<and>
         0 \<le> animation_calls n ! k \<and> animation_calls n ! k \<le> 719 \<and>
         (k + 721 \<le> n \<longrightarrow> animation_calls n ! (k + 721) = animation_calls n ! k) \<and>
         (Suc k \<le> n \<longrightarrow>
            animation_calls n ! Suc k =
              (if k mod 721 = 0 \<or> k mod 721 = 720 then 0 else animation_calls n ! k + 1))"
proof -
  have fr: "length frames = 720 \<and> frames ! 0 = 0 \<and>
      (i < 719 \<longrightarrow> frames ! Suc i = frames ! i + 1)"
    by (simp add: frames_nth) (simp add: frames_def)
  have nth: "animation_calls n ! k = (if k mod 721 = 0 then 0 else int (k mod 721) - 1)"
    by (rule animation_calls_nth[OF assms])
  have "k mod 721 < 721"
    by simp
  then have rng: "0 \<le> animation_calls n ! k \<and> animation_calls n ! k \<le> 719"
    unfolding nth by (cases "k mod 721 = 0") simp_all
  have per: "k + 721 \<le> n \<longrightarrow> animation_calls n ! (k + 721) = animation_calls n ! k"
    by (simp add: animation_calls_nth nth)
  have suc: "Suc k \<le> n \<longrightarrow>
      animation_calls n ! Suc k =
        (if k mod 721 = 0 \<or> k mod 721 = 720 then 0 else animation_calls n ! k + 1)"
  proof
    assume "Suc k \<le> n"
    then have "animation_calls n ! Suc k =
        (if Suc k mod 721 = 0 then 0 else int (Suc k mod 721) - 1)"
      by (rule animation_calls_nth)
    then show "animation_calls n ! Suc k =
        (if k mod 721 = 0 \<or> k mod 721 = 720 then 0 else animation_calls n ! k + 1)"
      unfolding nth by (auto simp: mod_Suc)
  qed
  show ?thesis
    using fr animation_calls_length[of n] nth rng per suc by blast
qed

theorem frame_index_periodic_witness:
  "(1000::nat) \<le> 2000 \<and> (5::nat) < 719 \<and> frames ! 6 = frames ! 5 + 1 \<and>
   length (animation_calls 2000) = 2001 \<and>
   animation_calls 2000 ! 1000 = 278 \<and>
   animation_calls 2000 ! 1721 = animation_calls 2000 ! 1000 \<and>
   animation_calls 2000 ! 1001 = 279"
proof -
  have h: "(1000::nat) \<le> 2000"
    by simp
  show ?thesis
    using frame_index_periodic[OF h, of 5] by simp
qed

section \<open>Properties of the user input\<close>

lemma lower_char_y: "lower_char c = CHR ''y'' \<longleftrightarrow> c = CHR ''y'' \<or> c = CHR ''Y''"
proof (cases "65 \<le> (of_char c :: nat) \<and> (of_char c :: nat) \<le> 90")
  case False
  have "lower_char c = c"
    unfolding lower_char_def by (rule if_not_P[OF False])
  moreover have "c \<noteq> CHR ''Y''"
    using False by auto
  ultimately show ?thesis by auto
next
  case True
  have l: "lower_char c = char_of (of_char c + (32::nat))"
    unfolding lower_char_def by (rule if_P[OF True])
  have ny: "c \<noteq> CHR ''y''"
    using True by auto
  have "(char_of (of_char c + (32::nat)) = CHR ''y'') \<longleftrightarrow> (of_char c = (89::nat))"
  proof
    assume "char_of (of_char c + (32::nat)) = CHR ''y''"
    then have "(of_char (char_of (of_char c + (32::nat)) :: char) :: nat) = of_char (CHR ''y'')"
      by simp
    then have "(of_char c + (32::nat)) mod 256 = 121"
      by (simp add: of_char_of)
    then show "of_char c = (89::nat)"
      using True by simp
  next
    assume "of_char c = (89::nat)"
    then show "char_of (of_char c + (32::nat)) = CHR ''y''"
      by (simp add: char_of_eq_iff)
  qed
  moreover have "(of_char c = (89::nat)) \<longleftrightarrow> c = CHR ''Y''"
  proof
    assume "of_char c = (89::nat)"
    then have "char_of (of_char c :: nat) = (char_of (89::nat) :: char)"
      by simp
    then show "c = CHR ''Y''"
      by (simp add: char_of_eq_iff)
  qed simp
  ultimately show ?thesis
    using l ny by simp
qed

lemma lower_y: "lower s = ''y'' \<longleftrightarrow> s = ''y'' \<or> s = ''Y''"
  by (cases s) (auto simp: lower_def lower_char_y)

text \<open>
  C8, as claimed: when the input is invalid or missing, the defaults are used and the
  session still starts. Input that is missing altogether is not recovered: when standard
  input ends before a question that is asked has its answer, \<open>input\<close> raises \<open>EOFError\<close>,
  which \<open>get_user_inputs\<close> does not catch, and no animation is created.
\<close>

theorem get_user_inputs_counterexample:
  "get_user_inputs (\<lambda>s. if s = ''2'' then Some 2 else None) [] init_globals = Inl EOFError \<and>
   run_animation (\<lambda>s. if s = ''2'' then Some 2 else None) [] = Inl EOFError \<and>
   run_animation (\<lambda>s. if s = ''2'' then Some 2 else None) [''n'', ''abc''] = Inl EOFError"
  by (simp add: run_animation_def get_user_inputs_def init_globals_def lower_y)

text \<open>
  C8, amended. Every answer that is given but empty or invalid falls back to the default
  of its own question, and the session starts: an empty omega entry, or one that does not
  parse, gives \<open>omega = 0\<close> (one that does not parse also puts \<open>PLOT_BOTH\<close> back to
  \<open>False\<close>), and every answer other than \<open>y\<close> or \<open>Y\<close> to a yes/no question counts as no:
  a single plot, three wheels. Valid answers are kept. The question about four wheels is
  asked only when both configurations are not plotted. Only input that is missing
  altogether is not recovered: when standard input ends before the first or the second
  question, or before the third when it is asked, the result is \<open>EOFError\<close>.
\<close>

theorem get_user_inputs_fallback:
  "get_user_inputs float_of [] init_globals = Inl EOFError \<and>
   get_user_inputs float_of [a1] init_globals = Inl EOFError \<and>
   get_user_inputs float_of (a1 # a2 # rest) init_globals =
     (let omega = (if a2 = [] then 0 else case float_of a2 of Some v \<Rightarrow> v | None \<Rightarrow> 0);
          both = (if a2 \<noteq> [] \<and> float_of a2 = None then False else a1 = ''y'' \<or> a1 = ''Y'')
      in if both then Inr (False, \<lparr>OMEGA = omega, PLOT_BOTH = True, paused = False\<rparr>, rest)
         else (case rest of
                 [] \<Rightarrow> Inl EOFError
               | a3 # rest' \<Rightarrow>
                   Inr (a3 = ''y'' \<or> a3 = ''Y'',
                        \<lparr>OMEGA = omega, PLOT_BOTH = False, paused = False\<rparr>, rest'))) \<and>
   run_animation float_of [] = Inl EOFError \<and>
   run_animation float_of [a1] = Inl EOFError \<and>
   run_animation float_of (a1 # a2 # rest) =
     (let omega = (if a2 = [] then 0 else case float_of a2 of Some v \<Rightarrow> v | None \<Rightarrow> 0);
          both = (if a2 \<noteq> [] \<and> float_of a2 = None then False else a1 = ''y'' \<or> a1 = ''Y'')
      in if both then Inr (\<lparr>OMEGA = omega, PLOT_BOTH = True, paused = False\<rparr>,
                           [(omega, False), (omega, True)])
         else (case rest of
                 [] \<Rightarrow> Inl EOFError
               | a3 # rest' \<Rightarrow>
                   Inr (\<lparr>OMEGA = omega, PLOT_BOTH = False, paused = False\<rparr>,
                        [(omega, a3 = ''y'' \<or> a3 = ''Y'')])))"
proof -
  have g0: "get_user_inputs float_of [] init_globals = Inl EOFError"
    by (simp add: get_user_inputs_def)
  have g1: "get_user_inputs float_of [a1] init_globals = Inl EOFError"
    by (simp add: get_user_inputs_def)
  have g2: "get_user_inputs float_of (a1 # a2 # rest) init_globals =
     (let omega = (if a2 = [] then 0 else case float_of a2 of Some v \<Rightarrow> v | None \<Rightarrow> 0);
          both = (if a2 \<noteq> [] \<and> float_of a2 = None then False else a1 = ''y'' \<or> a1 = ''Y'')
      in if both then Inr (False, \<lparr>OMEGA = omega, PLOT_BOTH = True, paused = False\<rparr>, rest)
         else (case rest of
                 [] \<Rightarrow> Inl EOFError
               | a3 # rest' \<Rightarrow>
                   Inr (a3 = ''y'' \<or> a3 = ''Y'',
                        \<lparr>OMEGA = omega, PLOT_BOTH = False, paused = False\<rparr>, rest')))"
    by (cases rest; cases "float_of a2")
      (auto simp: get_user_inputs_def init_globals_def Let_def lower_y)
  have r0: "run_animation float_of [] = Inl EOFError"
    by (simp add: run_animation_def g0)
  have r1: "run_animation float_of [a1] = Inl EOFError"
    by (simp add: run_animation_def g1)
  have r2: "run_animation float_of (a1 # a2 # rest) =
     (let omega = (if a2 = [] then 0 else case float_of a2 of Some v \<Rightarrow> v | None \<Rightarrow> 0);
          both = (if a2 \<noteq> [] \<and> float_of a2 = None then False else a1 = ''y'' \<or> a1 = ''Y'')
      in if both then Inr (\<lparr>OMEGA = omega, PLOT_BOTH = True, paused = False\<rparr>,
                           [(omega, False), (omega, True)])
         else (case rest of
                 [] \<Rightarrow> Inl EOFError
               | a3 # rest' \<Rightarrow>
                   Inr (\<lparr>OMEGA = omega, PLOT_BOTH = False, paused = False\<rparr>,
                        [(omega, a3 = ''y'' \<or> a3 = ''Y'')])))"
    unfolding run_animation_def g2 by (cases rest) (auto simp: Let_def)
  show ?thesis
    using g0 g1 g2 r0 r1 r2 by blast
qed

theorem get_user_inputs_fallback_witness:
  "run_animation (\<lambda>s. if s = ''2'' then Some 2 else None) [''maybe'', ''2'', ''xyz''] =
     Inr (\<lparr>OMEGA = 2, PLOT_BOTH = False, paused = False\<rparr>, [(2, False)]) \<and>
   run_animation (\<lambda>s. if s = ''2'' then Some 2 else None) [''n'', ''abc'', ''y''] =
     Inr (\<lparr>OMEGA = 0, PLOT_BOTH = False, paused = False\<rparr>, [(0, True)]) \<and>
   run_animation (\<lambda>s. if s = ''2'' then Some 2 else None) [''y'', []] =
     Inr (\<lparr>OMEGA = 0, PLOT_BOTH = True, paused = False\<rparr>, [(0, False), (0, True)]) \<and>
   run_animation (\<lambda>s. if s = ''2'' then Some 2 else None) [''Y'', ''abc''] = Inl EOFError \<and>
   get_user_inputs (\<lambda>s. if s = ''2'' then Some 2 else None) [''y'', ''2'', ''n''] init_globals =
     Inr (False, \<lparr>OMEGA = 2, PLOT_BOTH = True, paused = False\<rparr>, [''n''])"
proof -
  let ?f = "\<lambda>s. if s = ''2'' then Some (2::real) else None"
  show ?thesis
    using
      get_user_inputs_fallback[where float_of = ?f and ?a1.0 = "''maybe''" and ?a2.0 = "''2''"
        and rest = "[''xyz'']"]
      get_user_inputs_fallback[where float_of = ?f and ?a1.0 = "''n''" and ?a2.0 = "''abc''"
        and rest = "[''y'']"]
      get_user_inputs_fallback[where float_of = ?f and ?a1.0 = "''y''" and ?a2.0 = "[]"
        and rest = "[]"]
      get_user_inputs_fallback[where float_of = ?f and ?a1.0 = "''Y''" and ?a2.0 = "''abc''"
        and rest = "[]"]
      get_user_inputs_fallback[where float_of = ?f and ?a1.0 = "''y''" and ?a2.0 = "''2''"
        and rest = "[''n'']"]
    by simp
qed

end
